theory Spec2Isabelle
  imports Main "HOL-Library.Sublist"
begin

section \<open>Safe Key Recorder: the session state and what it talks to\<close>

text \<open>
  The program is one class, \<open>SafeKeyRecorder\<close>, whose methods are the callbacks of a Tk
  window. The model keeps the fields of the object that the callbacks read or write, the
  text files the Save and Open callbacks reach, and makes everything the callbacks obtain
  from outside (the clock, the answers of the dialogs, the outcome of file I/O) an
  argument of the callback.

  Python strings are modelled as \<open>string\<close>; the characters the program names are the
  newline (code 10), the tab (code 9) and the backslash (code 92); the carriage return
  (code 13) is what Tk puts into \<open>event.char\<close> for the Return key and what Python's
  text mode turns into a newline on reading.
\<close>

definition NL :: char where
  "NL = CHR 0x0A"

definition TAB :: char where
  "TAB = CHR 0x09"

definition BACKSLASH :: char where
  "BACKSLASH = CHR 0x5C"

definition CR :: char where
  "CR = CHR 0x0D"

text \<open>An entry of \<open>self.events\<close>: the tuple \<open>(timestamp, keysym, char_repr)\<close>.\<close>

type_synonym event_record = "string \<times> string \<times> string"

text \<open>The \<open>state\<close> option of a Tk widget: \<open>"normal"\<close> or \<open>"disabled"\<close>.\<close>

datatype widget_state = Normal | Disabled

text \<open>The two attributes of a Tk key event that \<open>on_key_press\<close> reads.\<close>

record key_event =
  keysym :: string
  char :: string

text \<open>
  The fields of the object. \<open>log_display\<close> is the content of the read-only Text widget
  without the final newline that a Tk Text widget always holds, so the widget is empty
  (\<open>compare("end-1c", "==", "1.0")\<close>) exactly when the field is \<open>[]\<close>.
  \<open>status_label\<close> is the pair of the label's \<open>text\<close> and \<open>fg\<close>.
  \<open>destroyed\<close> records \<open>root.destroy()\<close>, which ends \<open>root.mainloop()\<close> and with it the
  process. \<open>files\<close> is the part of the file system the program reaches: a map from a path
  to the text of the file there.
\<close>

record state =
  recording :: bool
  events :: "event_record list"
  start_btn :: widget_state
  stop_btn :: widget_state
  status_label :: "string \<times> string"
  log_display :: string
  log_display_state :: widget_state
  destroyed :: bool
  files :: "string \<rightharpoonup> string"

text \<open>
  How the \<open>with open(path, "a")\<close> block of \<open>save_log\<close> can end: all writes reach the file;
  \<open>open\<close> raises; or a write raises after some prefix of the text has reached the file.
  The string is \<open>str(e)\<close> of the exception.
\<close>

datatype write_outcome = Written | Open_failed string | Write_failed string nat

text \<open>
  What a callback obtains from outside while it runs: the readings of
  \<open>datetime.utcnow().isoformat()\<close> (\<open>save_log\<close> reads the clock a second time for its
  message), the answer of \<open>messagebox.askyesno\<close>, the paths returned by the two file
  dialogs (empty when the user cancels), and the outcome of the file write. For
  \<open>open_log_file\<close>, \<open>read_fails\<close> says that opening or reading an existing file raises
  (permissions, undecodable bytes), and \<open>read_error\<close> is \<open>str(e)\<close> of the exception that
  opening or reading raises, also when it raises because the path holds no file.
\<close>

record env =
  utcnow :: string
  utcnow_later :: string
  askyesno :: bool
  asksaveasfilename :: string
  askopenfilename :: string
  write_result :: write_outcome
  read_fails :: bool
  read_error :: string

text \<open>What a callback shows to the user, in the order it shows it.\<close>

datatype effect =
    ShowInfo string string
  | ShowError string string
  | AskYesNo string string
  | AskSaveAsFilename
  | AskOpenFilename
  | Toplevel string string

section \<open>Library functions the program calls\<close>

text \<open>
  \<open>str.replace(old, new)\<close>: every non-overlapping occurrence of \<open>old\<close>, found from the
  left, is replaced by \<open>new\<close>. With an empty \<open>old\<close>, Python puts \<open>new\<close> before every
  character and at the end.
\<close>

function replace_ne :: "string \<Rightarrow> string \<Rightarrow> string \<Rightarrow> string" where
  "replace_ne old new [] = []"
| "replace_ne old new (c # cs) =
     (if old \<noteq> [] \<and> prefix old (c # cs)
      then new @ replace_ne old new (drop (length old) (c # cs))
      else c # replace_ne old new cs)"
  by pat_completeness auto
termination
  by (relation "measure (\<lambda>(old, new, s). length s)") (auto simp: neq_Nil_conv)

definition str_replace :: "string \<Rightarrow> string \<Rightarrow> string \<Rightarrow> string" where
  "str_replace s old new =
     (if old = [] then new @ concat (map (\<lambda>c. c # new) s) else replace_ne old new s)"

text \<open>\<open>str(n)\<close> for a natural number, as \<open>f"{len(self.events)}"\<close> renders it.\<close>

definition digit :: "nat \<Rightarrow> char" where
  "digit d = char_of (48 + d)"

function str_nat :: "nat \<Rightarrow> string" where
  "str_nat n = (if n < 10 then [digit n] else str_nat (n div 10) @ [digit (n mod 10)])"
  by pat_completeness auto
termination
  by (relation "measure id") auto

text \<open>
  What \<open>f.read()\<close> returns for a file opened with \<open>open(path, "r")\<close>: Python's universal
  newlines turn every carriage return followed by a newline, and every other carriage
  return, into one newline.
\<close>

fun universal_newlines :: "string \<Rightarrow> string" where
  "universal_newlines [] = []"
| "universal_newlines [c] = (if c = CR then [NL] else [c])"
| "universal_newlines (c # d # rest) =
     (if c = CR \<and> d = NL then NL # universal_newlines rest
      else if c = CR then NL # universal_newlines (d # rest)
      else c # universal_newlines (d # rest))"

text \<open>\<open>os.path.basename\<close> on a POSIX path: what follows the last slash.\<close>

definition basename :: "string \<Rightarrow> string" where
  "basename p = rev (takeWhile (\<lambda>c. c \<noteq> CHR ''/'') (rev p))"

section \<open>The callbacks\<close>

text \<open>\<open>__init__\<close>: the object as the constructor leaves it, over the files that exist.\<close>

definition init :: "(string \<rightharpoonup> string) \<Rightarrow> state" where
  "init fs =
     \<lparr> recording = False,
       events = [],
       start_btn = Normal,
       stop_btn = Disabled,
       status_label = (''Recording: No'', ''red''),
       log_display = [],
       log_display_state = Disabled,
       destroyed = False,
       files = fs \<rparr>"

text \<open>
  \<open>log_display.insert("end", t)\<close>: Tk ignores an insert into a disabled Text widget;
  otherwise the text goes before the widget's final newline.
\<close>

definition insert_end :: "state \<Rightarrow> string \<Rightarrow> state" where
  "insert_end s t =
     (if log_display_state s = Disabled then s
      else s\<lparr>log_display := log_display s @ t\<rparr>)"

text \<open>\<open>log_display.delete("1.0", "end")\<close>, likewise ignored when the widget is disabled.\<close>

definition delete_all :: "state \<Rightarrow> state" where
  "delete_all s =
     (if log_display_state s = Disabled then s
      else s\<lparr>log_display := []\<rparr>)"

text \<open>\<open>_append_to_display\<close> (the call \<open>see("end")\<close> only scrolls).\<close>

definition append_to_display :: "state \<Rightarrow> string \<Rightarrow> state" where
  "append_to_display s text =
     (let s1 = s\<lparr>log_display_state := Normal\<rparr>;
          s2 = insert_end s1 (text @ [NL])
      in s2\<lparr>log_display_state := Disabled\<rparr>)"

text \<open>\<open>_append_message\<close>, with the reading of the clock it takes.\<close>

definition append_message :: "state \<Rightarrow> string \<Rightarrow> string \<Rightarrow> state" where
  "append_message s now msg =
     append_to_display s (''[INFO] '' @ now @ ''Z | '' @ msg)"

definition start_recording :: "state \<Rightarrow> env \<Rightarrow> state \<times> effect list" where
  "start_recording s e =
     (if recording s then (s, [])
      else
        (append_message
           (s\<lparr>recording := True,
              start_btn := Disabled,
              stop_btn := Normal,
              status_label := (''Recording: Yes'', ''green'')\<rparr>)
           (utcnow e)
           ''Recording started. Click inside input area and type...'',
         []))"

definition stop_recording :: "state \<Rightarrow> env \<Rightarrow> state \<times> effect list" where
  "stop_recording s e =
     (if \<not> recording s then (s, [])
      else
        (append_message
           (s\<lparr>recording := False,
              start_btn := Normal,
              stop_btn := Disabled,
              status_label := (''Recording: No'', ''red'')\<rparr>)
           (utcnow e)
           ''Recording stopped.'',
         []))"

text \<open>The normalisation of \<open>event.char\<close> in \<open>on_key_press\<close>.\<close>

definition char_repr :: "string \<Rightarrow> string" where
  "char_repr ch =
     (if ch = [] then ''<non-printable>''
      else str_replace ch [NL] [BACKSLASH, CHR ''n''])"

definition on_key_press :: "state \<Rightarrow> env \<Rightarrow> key_event \<Rightarrow> state \<times> effect list" where
  "on_key_press s e event =
     (if \<not> recording s then (s, [])
      else
        (let timestamp = utcnow e @ ''Z'';
             ks = keysym event;
             cr = char_repr (char event)
         in (append_to_display
               (s\<lparr>events := events s @ [(timestamp, ks, cr)]\<rparr>)
               (timestamp @ '' | '' @ ks @ '' | '' @ cr),
             [])))"

text \<open>
  The text \<open>save_log\<close> writes. The handle is modelled by the text written to it so far;
  \<open>write_events\<close> is the \<open>for\<close> loop over \<open>self.events\<close>.
\<close>

fun write_events :: "string \<Rightarrow> event_record list \<Rightarrow> string" where
  "write_events f [] = f"
| "write_events f ((ts, ks, ch) # rest) =
     write_events (f @ ts @ [TAB] @ ks @ [TAB] @ ch @ [NL]) rest"

definition save_text :: "string \<Rightarrow> event_record list \<Rightarrow> string" where
  "save_text now evs =
     (let f1 = ''# Key event log saved: '' @ now @ ''Z'' @ [NL];
          f2 = write_events f1 evs
      in f2 @ [NL])"

text \<open>
  Mode \<open>"a"\<close>: the file is created when it does not exist, and what is written goes after
  what the file holds. The text of a file is the text Python writes and reads, as on a
  platform whose line separator is the newline.
\<close>

definition file_append :: "(string \<rightharpoonup> string) \<Rightarrow> string \<Rightarrow> string \<Rightarrow> (string \<rightharpoonup> string)" where
  "file_append fs path t =
     fs(path \<mapsto> (case fs path of None \<Rightarrow> [] | Some old \<Rightarrow> old) @ t)"

definition save_log :: "state \<Rightarrow> env \<Rightarrow> state \<times> effect list" where
  "save_log s e =
     (if events s = [] then (s, [ShowInfo ''Save Log'' ''No recorded events to save.''])
      else
        (let path = asksaveasfilename e in
         if path = [] then (s, [AskSaveAsFilename])
         else
           (case write_result e of
              Written \<Rightarrow>
                (append_message
                   (s\<lparr>files := file_append (files s) path (save_text (utcnow e) (events s))\<rparr>)
                   (utcnow_later e)
                   (''Saved '' @ str_nat (length (events s)) @ '' events to '' @ basename path),
                 [AskSaveAsFilename,
                  ShowInfo ''Save Log''
                    (''Saved '' @ str_nat (length (events s)) @ '' events to:'' @ [NL] @ path)])
            | Open_failed err \<Rightarrow>
                (s,
                 [AskSaveAsFilename,
                  ShowError ''Save Log'' (''Failed to save file:'' @ [NL] @ err)])
            | Write_failed err n \<Rightarrow>
                (s\<lparr>files :=
                     file_append (files s) path (take n (save_text (utcnow e) (events s)))\<rparr>,
                 [AskSaveAsFilename,
                  ShowError ''Save Log'' (''Failed to save file:'' @ [NL] @ err)]))))"

text \<open>
  \<open>open_log_file\<close>: the text read goes to a read-only window of its own. Opening a path
  that holds no file raises, as does any failure the environment reports; the dialog
  carries the text of the exception.
\<close>

definition open_log_file :: "state \<Rightarrow> env \<Rightarrow> state \<times> effect list" where
  "open_log_file s e =
     (let path = askopenfilename e in
      if path = [] then (s, [AskOpenFilename])
      else
        (case (if read_fails e then None else files s path) of
           None \<Rightarrow>
             (s,
              [AskOpenFilename,
               ShowError ''Open Log'' (''Failed to open file:'' @ [NL] @ read_error e)])
         | Some stored \<Rightarrow>
             (let content = universal_newlines stored
              in (s, [AskOpenFilename, Toplevel (''Viewing: '' @ basename path) content]))))"

definition clear_events :: "state \<Rightarrow> env \<Rightarrow> state \<times> effect list" where
  "clear_events s e =
     (if events s = [] \<and> log_display s = [] then (s, [])
      else if askyesno e then
        (let s1 = s\<lparr>events := []\<rparr>;
             s2 = s1\<lparr>log_display_state := Normal\<rparr>;
             s3 = delete_all s2;
             s4 = s3\<lparr>log_display_state := Disabled\<rparr>
         in (append_message s4 (utcnow e) ''Cleared recorded events.'',
             [AskYesNo ''Clear'' ''Clear recorded events and display?'']))
      else (s, [AskYesNo ''Clear'' ''Clear recorded events and display?'']))"

definition on_close :: "state \<Rightarrow> env \<Rightarrow> state \<times> effect list" where
  "on_close s e =
     (if events s \<noteq> [] then
        (if \<not> askyesno e then
           (s, [AskYesNo ''Exit'' ''There are unsaved recorded events. Exit without saving?''])
         else
           (s\<lparr>destroyed := True\<rparr>,
            [AskYesNo ''Exit'' ''There are unsaved recorded events. Exit without saving?'']))
      else (s\<lparr>destroyed := True\<rparr>, []))"

section \<open>The event loop\<close>

text \<open>
  \<open>root.mainloop()\<close> runs one callback at a time, in arrival order: the command of a
  button, the \<open><KeyPress>\<close> binding of the input area, or the \<open>WM_DELETE_WINDOW\<close>
  protocol. Once the root window is destroyed the loop has ended and nothing runs.
\<close>

datatype action =
    Press_start
  | Press_stop
  | Key_press key_event
  | Press_save
  | Press_open
  | Press_clear
  | Close_window

fun handle :: "state \<Rightarrow> action \<Rightarrow> env \<Rightarrow> state \<times> effect list" where
  "handle s Press_start e = start_recording s e"
| "handle s Press_stop e = stop_recording s e"
| "handle s (Key_press event) e = on_key_press s e event"
| "handle s Press_save e = save_log s e"
| "handle s Press_open e = open_log_file s e"
| "handle s Press_clear e = clear_events s e"
| "handle s Close_window e = on_close s e"

definition dispatch :: "state \<Rightarrow> action \<times> env \<Rightarrow> state \<times> effect list" where
  "dispatch s ae = (if destroyed s then (s, []) else handle s (fst ae) (snd ae))"

fun run :: "state \<Rightarrow> (action \<times> env) list \<Rightarrow> state" where
  "run s [] = s"
| "run s (ae # rest) = run (fst (dispatch s ae)) rest"

text \<open>A user-confirmed Clear: the only step that may shorten the Event Log.\<close>

definition confirmed_clear :: "action \<times> env \<Rightarrow> bool" where
  "confirmed_clear ae = (fst ae = Press_clear \<and> askyesno (snd ae))"

section \<open>The example session of the specification\<close>

text \<open>
  Start recording, type the key \<open>a\<close>, type the key \<open>Return\<close> (which the example takes
  to arrive without a character), stop, save to \<open>out.txt\<close>. Every dialog is answered with yes and the write
  succeeds.
\<close>

definition example_env :: env where
  "example_env =
     \<lparr> utcnow = ''2024-01-01T00:00:00'',
       utcnow_later = ''2024-01-01T00:00:01'',
       askyesno = True,
       asksaveasfilename = ''out.txt'',
       askopenfilename = ''out.txt'',
       write_result = Written,
       read_fails = False,
       read_error = [] \<rparr>"

definition key_a :: key_event where
  "key_a = \<lparr> keysym = ''a'', char = ''a'' \<rparr>"

definition key_Return :: key_event where
  "key_Return = \<lparr> keysym = ''Return'', char = [] \<rparr>"

text \<open>
  The KeyPress event of the Return key as Tk delivers it: \<open>event.char\<close> is the carriage
  return, not the empty string.
\<close>

definition key_Return_tk :: key_event where
  "key_Return_tk = \<lparr> keysym = ''Return'', char = [CR] \<rparr>"

definition scenario :: "(action \<times> env) list" where
  "scenario =
     [(Press_start, example_env),
      (Key_press key_a, example_env\<lparr>utcnow := ''2024-01-01T00:00:02''\<rparr>),
      (Key_press key_Return, example_env\<lparr>utcnow := ''2024-01-01T00:00:03''\<rparr>),
      (Press_stop, example_env\<lparr>utcnow := ''2024-01-01T00:00:04''\<rparr>),
      (Press_save,
       example_env\<lparr>utcnow := ''2024-01-01T00:00:05'', utcnow_later := ''2024-01-01T00:00:06''\<rparr>)]"

text \<open>A file system in which \<open>out.txt\<close> already holds a line.\<close>

definition existing_files :: "string \<rightharpoonup> string" where
  "existing_files = [''out.txt'' \<mapsto> ''earlier content'' @ [NL]]"

text \<open>The example session over these files, up to the moment before Save is pressed.\<close>

definition before_save :: state where
  "before_save = run (init existing_files) (butlast scenario)"

text \<open>The state of the example session once recording has started.\<close>

definition started :: state where
  "started = fst (start_recording (init Map.empty) example_env)"

section \<open>Properties of a session state\<close>

text \<open>
  The recording flag agrees with what the window shows: recording exactly when Start is
  disabled, Stop is enabled and the status reads \<open>Recording: Yes\<close>, and not recording
  exactly when Start is enabled, Stop is disabled and the status reads \<open>Recording: No\<close>.
\<close>

definition gate_consistent :: "state \<Rightarrow> bool" where
  "gate_consistent s =
     ((recording s \<longleftrightarrow>
         start_btn s = Disabled \<and> stop_btn s = Normal
         \<and> fst (status_label s) = ''Recording: Yes'')
      \<and> (\<not> recording s \<longleftrightarrow>
         start_btn s = Normal \<and> stop_btn s = Disabled
         \<and> fst (status_label s) = ''Recording: No''))"

text \<open>The Event Record that \<open>on_key_press\<close> builds from a key event and the clock.\<close>

definition record_of :: "key_event \<Rightarrow> env \<Rightarrow> event_record" where
  "record_of event e = (utcnow e @ ''Z'', keysym event, char_repr (char event))"

section \<open>Basic facts about the callbacks\<close>

lemma append_to_display_eq:
  "append_to_display s t =
     s\<lparr>log_display := log_display s @ t @ [NL], log_display_state := Disabled\<rparr>"
  by (simp add: append_to_display_def insert_end_def Let_def)

lemma append_message_eq:
  "append_message s now msg =
     s\<lparr>log_display := log_display s @ ''[INFO] '' @ now @ ''Z | '' @ msg @ [NL],
       log_display_state := Disabled\<rparr>"
  by (simp add: append_message_def append_to_display_eq)

text \<open>Replacing a one-character pattern substitutes character by character.\<close>

lemma replace_ne_single:
  "replace_ne [c] new s = concat (map (\<lambda>x. if x = c then new else [x]) s)"
  by (induction s) auto

lemma char_repr_eq:
  "char_repr ch =
     (if ch = [] then ''<non-printable>''
      else concat (map (\<lambda>c. if c = NL then [BACKSLASH, CHR ''n''] else [c]) ch))"
  by (simp add: char_repr_def str_replace_def replace_ne_single)

lemma NL_notin_char_repr: "NL \<notin> set (char_repr ch)"
  by (auto simp: char_repr_eq NL_def BACKSLASH_def split: if_splits)

lemma count_line:
  "NL \<notin> set ts \<Longrightarrow> NL \<notin> set ks \<Longrightarrow>
   count_list (ts @ ''Z | '' @ ks @ '' | '' @ char_repr ch @ [NL]) NL = 1"
  using NL_notin_char_repr [of ch] by (simp add: NL_def count_list_0_iff)

text \<open>The loop of \<open>save_log\<close> writes the lines of the records one after the other.\<close>

lemma write_events_eq:
  "write_events f evs =
     f @ concat (map (\<lambda>(t, k, c). t @ [TAB] @ k @ [TAB] @ c @ [NL]) evs)"
  by (induction f evs rule: write_events.induct) simp_all

lemma on_key_press_closed: "\<not> recording s \<Longrightarrow> on_key_press s e event = (s, [])"
  by (simp add: on_key_press_def)

lemma on_key_press_open:
  "recording s \<Longrightarrow>
   on_key_press s e event =
     (s\<lparr>events := events s @ [(utcnow e @ ''Z'', keysym event, char_repr (char event))],
        log_display := log_display s @ utcnow e @ ''Z | '' @ keysym event @ '' | ''
                         @ char_repr (char event) @ [NL],
        log_display_state := Disabled\<rparr>, [])"
  by (simp add: on_key_press_def Let_def append_to_display_eq)

lemma run_keys_closed:
  "\<not> recording s \<Longrightarrow> run s (map (\<lambda>(event, e). (Key_press event, e)) kes) = s"
  by (induction kes) (auto simp: dispatch_def on_key_press_closed)

lemma run_destroyed: "destroyed s \<Longrightarrow> run s as = s"
  by (induction as) (auto simp: dispatch_def)

lemma started_eq:
  "started =
     \<lparr> recording = True,
       events = [],
       start_btn = Disabled,
       stop_btn = Normal,
       status_label = (''Recording: Yes'', ''green''),
       log_display =
         ''[INFO] 2024-01-01T00:00:00Z | Recording started. Click inside input area and type...''
           @ [NL],
       log_display_state = Disabled,
       destroyed = False,
       files = Map.empty \<rparr>"
  by (simp add: started_def start_recording_def init_def append_message_eq example_env_def)

lemma before_save_eq:
  "before_save =
     \<lparr> recording = False,
       events =
         [(''2024-01-01T00:00:02Z'', ''a'', ''a''),
          (''2024-01-01T00:00:03Z'', ''Return'', ''<non-printable>'')],
       start_btn = Normal,
       stop_btn = Disabled,
       status_label = (''Recording: No'', ''red''),
       log_display =
         ''[INFO] 2024-01-01T00:00:00Z | Recording started. Click inside input area and type...''
           @ [NL] @ ''2024-01-01T00:00:02Z | a | a'' @ [NL]
           @ ''2024-01-01T00:00:03Z | Return | <non-printable>'' @ [NL]
           @ ''[INFO] 2024-01-01T00:00:04Z | Recording stopped.'' @ [NL],
       log_display_state = Disabled,
       destroyed = False,
       files = existing_files \<rparr>"
  by (simp add: before_save_def scenario_def dispatch_def init_def start_recording_def
      stop_recording_def on_key_press_open append_message_eq example_env_def key_a_def
      key_Return_def char_repr_eq NL_def)

section \<open>The capture gate\<close>

text \<open>
  Claim C1. A key event delivered while \<open>recording\<close> is false changes nothing: the handler
  returns the state it was given, and so does any sequence of key events delivered while
  the gate is closed, so nothing is kept to be appended later. A key event delivered while
  \<open>recording\<close> is true appends exactly one Event Record to the Event Log and the text
  \<open>timestamp | key_symbol | char_repr\<close> followed by a newline to the Display Panel; that
  text is exactly one line when the timestamp and the key symbol hold no newline.
\<close>

theorem key_event_gate:
  "(\<not> recording s \<longrightarrow>
      on_key_press s e event = (s, [])
      \<and> run s (map (\<lambda>(event', e'). (Key_press event', e')) kes) = s)
   \<and> (recording s \<longrightarrow>
        events (fst (on_key_press s e event)) =
          events s @ [(utcnow e @ ''Z'', keysym event, char_repr (char event))]
        \<and> log_display (fst (on_key_press s e event)) =
            log_display s @ utcnow e @ ''Z | '' @ keysym event @ '' | ''
              @ char_repr (char event) @ [NL]
        \<and> (NL \<notin> set (utcnow e) \<and> NL \<notin> set (keysym event) \<longrightarrow>
             count_list
               (utcnow e @ ''Z | '' @ keysym event @ '' | '' @ char_repr (char event) @ [NL])
               NL = 1))"
proof (intro conjI impI)
  assume "\<not> recording s"
  then show "on_key_press s e event = (s, [])"
    by (rule on_key_press_closed)
next
  assume "\<not> recording s"
  then show "run s (map (\<lambda>(event', e'). (Key_press event', e')) kes) = s"
    by (rule run_keys_closed)
next
  assume "recording s"
  then show "events (fst (on_key_press s e event)) =
      events s @ [(utcnow e @ ''Z'', keysym event, char_repr (char event))]"
    by (simp add: on_key_press_open)
next
  assume "recording s"
  then show "log_display (fst (on_key_press s e event)) =
      log_display s @ utcnow e @ ''Z | '' @ keysym event @ '' | ''
        @ char_repr (char event) @ [NL]"
    by (simp add: on_key_press_open)
next
  assume "NL \<notin> set (utcnow e) \<and> NL \<notin> set (keysym event)"
  then show "count_list
      (utcnow e @ ''Z | '' @ keysym event @ '' | '' @ char_repr (char event) @ [NL]) NL = 1"
    by (intro count_line) simp_all
qed

theorem key_event_gate_witness:
  "\<not> recording (init Map.empty)
   \<and> on_key_press (init Map.empty) example_env key_a = (init Map.empty, [])
   \<and> run (init Map.empty)
        (map (\<lambda>(event', e'). (Key_press event', e'))
           [(key_a, example_env), (key_Return, example_env)])
       = init Map.empty
   \<and> recording started
   \<and> events (fst (on_key_press started example_env key_a)) =
        [(''2024-01-01T00:00:00Z'', ''a'', ''a'')]
   \<and> log_display (fst (on_key_press started example_env key_a)) =
        log_display started @ ''2024-01-01T00:00:00Z | a | a'' @ [NL]
   \<and> NL \<notin> set (utcnow example_env) \<and> NL \<notin> set (keysym key_a)
   \<and> count_list
        (utcnow example_env @ ''Z | '' @ keysym key_a @ '' | '' @ char_repr (char key_a) @ [NL])
        NL = 1"
proof -
  have closed: "\<not> recording (init Map.empty)"
    by (simp add: init_def)
  have opened: "recording started"
    by (simp add: started_eq)
  have clean: "NL \<notin> set (utcnow example_env) \<and> NL \<notin> set (keysym key_a)"
    by (simp add: example_env_def key_a_def NL_def)
  have cr: "char_repr (char key_a) = ''a''"
    by (simp add: char_repr_eq key_a_def NL_def)
  have ts: "utcnow example_env @ ''Z'' = ''2024-01-01T00:00:00Z''"
    and ks: "keysym key_a = ''a''"
    by (simp_all add: example_env_def key_a_def)
  note a = key_event_gate [of "init Map.empty" example_env key_a
      "[(key_a, example_env), (key_Return, example_env)]"]
  note b = key_event_gate [of started example_env key_a "[]"]
  from a closed
  have a1: "on_key_press (init Map.empty) example_env key_a = (init Map.empty, [])"
    and a2: "run (init Map.empty)
        (map (\<lambda>(event', e'). (Key_press event', e'))
           [(key_a, example_env), (key_Return, example_env)])
       = init Map.empty"
    by blast+
  from b opened
  have "events (fst (on_key_press started example_env key_a)) =
      events started @ [(utcnow example_env @ ''Z'', keysym key_a, char_repr (char key_a))]"
    by blast
  then have b1: "events (fst (on_key_press started example_env key_a)) =
      [(''2024-01-01T00:00:00Z'', ''a'', ''a'')]"
    by (simp add: cr ts ks started_eq)
  from b opened
  have "log_display (fst (on_key_press started example_env key_a)) =
      log_display started @ utcnow example_env @ ''Z | '' @ keysym key_a @ '' | ''
        @ char_repr (char key_a) @ [NL]"
    by blast
  then have b2: "log_display (fst (on_key_press started example_env key_a)) =
        log_display started @ ''2024-01-01T00:00:00Z | a | a'' @ [NL]"
    using ts by (simp add: cr ks)
  from b opened clean
  have b3: "count_list
        (utcnow example_env @ ''Z | '' @ keysym key_a @ '' | '' @ char_repr (char key_a) @ [NL])
        NL = 1"
    by blast
  from closed a1 a2 opened b1 b2 clean b3 show ?thesis by blast
qed

lemma save_log_events: "events (fst (save_log s e)) = events s"
  by (simp add: save_log_def Let_def append_message_eq split: write_outcome.split)

lemma save_log_recording: "recording (fst (save_log s e)) = recording s"
  by (simp add: save_log_def Let_def append_message_eq split: write_outcome.split)

lemma save_log_written_files:
  "events s \<noteq> [] \<Longrightarrow> asksaveasfilename e \<noteq> [] \<Longrightarrow> write_result e = Written \<Longrightarrow>
   files (fst (save_log s e)) =
     file_append (files s) (asksaveasfilename e) (save_text (utcnow e) (events s))"
  by (simp add: save_log_def Let_def append_message_eq)

lemma save_text_eq:
  "save_text now evs =
     ''# Key event log saved: '' @ now @ ''Z'' @ [NL]
       @ concat (map (\<lambda>(t, k, c). t @ [TAB] @ k @ [TAB] @ c @ [NL]) evs) @ [NL]"
  by (simp add: save_text_def Let_def write_events_eq)

section \<open>Saving\<close>

text \<open>
  Claim C2. When the Event Log is not empty, the user chooses a path and the write
  succeeds, the file at that path afterwards holds what it held before (nothing when it
  did not exist) followed by one block: the header line
  \<open># Key event log saved: <timestamp>Z\<close>, then for every Event Record \<open>(t, k, c)\<close> of the
  log, in log order, the line \<open>t<TAB>k<TAB>c\<close>, then one empty line. No other file changes.
\<close>

theorem save_appends_block:
  assumes "events s \<noteq> []"
    and "asksaveasfilename e \<noteq> []"
    and "write_result e = Written"
  shows "files (fst (save_log s e)) =
    (files s)(asksaveasfilename e \<mapsto>
       (case files s (asksaveasfilename e) of None \<Rightarrow> [] | Some old \<Rightarrow> old)
         @ ''# Key event log saved: '' @ utcnow e @ ''Z'' @ [NL]
         @ concat (map (\<lambda>(t, k, c). t @ [TAB] @ k @ [TAB] @ c @ [NL]) (events s))
         @ [NL])"
  using assms by (simp add: save_log_written_files file_append_def save_text_eq)

theorem save_appends_block_witness:
  "events before_save \<noteq> []
   \<and> asksaveasfilename (snd (last scenario)) \<noteq> []
   \<and> write_result (snd (last scenario)) = Written
   \<and> files (fst (save_log before_save (snd (last scenario)))) ''out.txt'' =
       Some (''earlier content'' @ [NL]
             @ ''# Key event log saved: 2024-01-01T00:00:05Z'' @ [NL]
             @ ''2024-01-01T00:00:02Z'' @ [TAB] @ ''a'' @ [TAB] @ ''a'' @ [NL]
             @ ''2024-01-01T00:00:03Z'' @ [TAB] @ ''Return'' @ [TAB] @ ''<non-printable>'' @ [NL]
             @ [NL])"
proof -
  have h1: "events before_save \<noteq> []"
    by (simp add: before_save_eq)
  have h2: "asksaveasfilename (snd (last scenario)) \<noteq> []"
    by (simp add: scenario_def example_env_def)
  have h3: "write_result (snd (last scenario)) = Written"
    by (simp add: scenario_def example_env_def)
  have "files (fst (save_log before_save (snd (last scenario)))) ''out.txt'' =
      ((files before_save)(asksaveasfilename (snd (last scenario)) \<mapsto>
       (case files before_save (asksaveasfilename (snd (last scenario))) of
          None \<Rightarrow> [] | Some old \<Rightarrow> old)
         @ ''# Key event log saved: '' @ utcnow (snd (last scenario)) @ ''Z'' @ [NL]
         @ concat (map (\<lambda>(t, k, c). t @ [TAB] @ k @ [TAB] @ c @ [NL]) (events before_save))
         @ [NL])) ''out.txt''"
    using save_appends_block [OF h1 h2 h3] by simp
  then have "files (fst (save_log before_save (snd (last scenario)))) ''out.txt'' =
       Some (''earlier content'' @ [NL]
             @ ''# Key event log saved: 2024-01-01T00:00:05Z'' @ [NL]
             @ ''2024-01-01T00:00:02Z'' @ [TAB] @ ''a'' @ [TAB] @ ''a'' @ [NL]
             @ ''2024-01-01T00:00:03Z'' @ [TAB] @ ''Return'' @ [TAB] @ ''<non-printable>'' @ [NL]
             @ [NL])"
    by (simp add: before_save_eq scenario_def example_env_def existing_files_def)
  with h1 h2 h3 show ?thesis by blast
qed

text \<open>
  Claim C5. Whatever the outcome of Save (the notice for an empty log, a cancelled dialog,
  a successful write, a failed one), the Event Log and the recording flag afterwards are
  what they were before. When opening or writing the file fails, an error dialog carrying
  the text of the failure is shown.
\<close>

theorem save_keeps_log:
  "events (fst (save_log s e)) = events s
   \<and> recording (fst (save_log s e)) = recording s
   \<and> (events s \<noteq> [] \<and> asksaveasfilename e \<noteq> []
        \<and> (write_result e = Open_failed err \<or> write_result e = Write_failed err n) \<longrightarrow>
        snd (save_log s e) =
          [AskSaveAsFilename, ShowError ''Save Log'' (''Failed to save file:'' @ [NL] @ err)])"
proof (intro conjI impI)
  show "events (fst (save_log s e)) = events s"
    by (rule save_log_events)
  show "recording (fst (save_log s e)) = recording s"
    by (rule save_log_recording)
next
  assume "events s \<noteq> [] \<and> asksaveasfilename e \<noteq> []
      \<and> (write_result e = Open_failed err \<or> write_result e = Write_failed err n)"
  then show "snd (save_log s e) =
      [AskSaveAsFilename, ShowError ''Save Log'' (''Failed to save file:'' @ [NL] @ err)]"
    by (auto simp: save_log_def Let_def)
qed

theorem save_keeps_log_witness:
  "events before_save \<noteq> []
   \<and> asksaveasfilename (example_env\<lparr>write_result := Open_failed ''Permission denied''\<rparr>) \<noteq> []
   \<and> write_result (example_env\<lparr>write_result := Open_failed ''Permission denied''\<rparr>)
       = Open_failed ''Permission denied''
   \<and> events (fst (save_log before_save
         (example_env\<lparr>write_result := Open_failed ''Permission denied''\<rparr>)))
       = events before_save
   \<and> recording (fst (save_log before_save
         (example_env\<lparr>write_result := Open_failed ''Permission denied''\<rparr>)))
       = recording before_save
   \<and> snd (save_log before_save
         (example_env\<lparr>write_result := Open_failed ''Permission denied''\<rparr>))
       = [AskSaveAsFilename,
          ShowError ''Save Log'' (''Failed to save file:'' @ [NL] @ ''Permission denied'')]"
proof -
  have h1: "events before_save \<noteq> []"
    by (simp add: before_save_eq)
  have h2: "asksaveasfilename (example_env\<lparr>write_result := Open_failed ''Permission denied''\<rparr>)
      \<noteq> []"
    by (simp add: example_env_def)
  have h3: "write_result (example_env\<lparr>write_result := Open_failed ''Permission denied''\<rparr>)
      = Open_failed ''Permission denied''"
    by simp
  from save_keeps_log [of before_save
      "example_env\<lparr>write_result := Open_failed ''Permission denied''\<rparr>"
      "''Permission denied''" 0] h1 h2 h3
  show ?thesis by blast
qed

text \<open>
  Claim C6. When the Event Log is empty, Save shows the notice
  \<open>No recorded events to save.\<close> and returns: the state, and with it every file, is what
  it was, and no file dialog is opened.
\<close>

theorem save_empty_log:
  "events s = [] \<Longrightarrow>
   save_log s e = (s, [ShowInfo ''Save Log'' ''No recorded events to save.''])
   \<and> AskSaveAsFilename \<notin> set (snd (save_log s e))
   \<and> files (fst (save_log s e)) = files s"
  by (simp add: save_log_def)

theorem save_empty_log_witness:
  "events (init existing_files) = []
   \<and> save_log (init existing_files) example_env =
       (init existing_files, [ShowInfo ''Save Log'' ''No recorded events to save.''])
   \<and> AskSaveAsFilename \<notin> set (snd (save_log (init existing_files) example_env))
   \<and> files (fst (save_log (init existing_files) example_env)) = existing_files"
proof -
  have h: "events (init existing_files) = []"
    by (simp add: init_def)
  have f: "files (init existing_files) = existing_files"
    by (simp add: init_def)
  from save_empty_log [OF h, of example_env] h f show ?thesis by simp
qed

section \<open>The character representation\<close>

text \<open>
  What \<open>on_key_press\<close> records as the third field: the token \<open><non-printable>\<close> when
  \<open>event.char\<close> is the empty string, and otherwise \<open>event.char\<close> with every newline
  replaced by the two characters backslash and \<open>n\<close>. The field never holds a newline.
\<close>

lemma on_key_press_char_repr:
  "recording s \<Longrightarrow>
   events (fst (on_key_press s e event)) =
     events s @
       [(utcnow e @ ''Z'', keysym event,
         if char event = [] then ''<non-printable>''
         else concat (map (\<lambda>c. if c = NL then [BACKSLASH, CHR ''n''] else [c]) (char event)))]
   \<and> NL \<notin> set (snd (snd (last (events (fst (on_key_press s e event))))))"
  using NL_notin_char_repr [of "char event"]
  by (simp add: on_key_press_open char_repr_eq)

text \<open>
  Only the newline is rewritten: a character string that is not empty and holds no
  newline is recorded as it is, whatever control characters it holds.
\<close>

lemma char_repr_raw: "ch \<noteq> [] \<Longrightarrow> NL \<notin> set ch \<Longrightarrow> char_repr ch = ch"
proof -
  assume filled: "ch \<noteq> []" and clean: "NL \<notin> set ch"
  from clean
  have "concat (map (\<lambda>c. if c = NL then [BACKSLASH, CHR ''n''] else [c]) ch) = ch"
    by (induction ch) auto
  with filled show ?thesis
    by (simp add: char_repr_eq)
qed

lemma char_repr_carriage_return: "char_repr [CR] = [CR]"
  by (simp add: char_repr_raw CR_def NL_def)

text \<open>
  Claim C3. The claim says that the third field of the record is the token
  \<open><non-printable>\<close> whenever the key event has no printable character, and names the
  \<open>Return\<close> key. The code tests only whether \<open>event.char\<close> is empty: for the \<open>Return\<close> key
  as Tk delivers it, with the carriage return as its character, the record appended
  while recording holds the carriage return itself and not the token.
\<close>

theorem return_key_recorded_raw:
  "recording started
   \<and> events (fst (on_key_press started example_env key_Return_tk)) =
       [(''2024-01-01T00:00:00Z'', ''Return'', [CR])]
   \<and> char_repr (char key_Return_tk) \<noteq> ''<non-printable>''"
proof -
  have cr: "char_repr (char key_Return_tk) = [CR]"
    by (simp add: key_Return_tk_def char_repr_carriage_return)
  have "recording started"
    by (simp add: started_eq)
  moreover have "events (fst (on_key_press started example_env key_Return_tk)) =
      [(''2024-01-01T00:00:00Z'', ''Return'', [CR])]"
    by (simp add: on_key_press_open started_eq cr) (simp add: example_env_def key_Return_tk_def)
  moreover have "char_repr (char key_Return_tk) \<noteq> ''<non-printable>''"
    by (simp add: cr)
  ultimately show ?thesis by blast
qed

section \<open>Clear\<close>

lemma clear_events_confirmed:
  "\<not> (events s = [] \<and> log_display s = []) \<Longrightarrow> askyesno e \<Longrightarrow>
   fst (clear_events s e) =
     s\<lparr>events := [],
       log_display := ''[INFO] '' @ utcnow e @ ''Z | Cleared recorded events.'' @ [NL],
       log_display_state := Disabled\<rparr>"
  by (auto simp: clear_events_def Let_def delete_all_def append_message_eq)

text \<open>
  Claim C4. Clear shows no prompt exactly when the Event Log and the Display Panel are
  both empty, and then it changes nothing. Otherwise it asks
  \<open>Clear recorded events and display?\<close>; on yes the Event Log becomes empty and the
  Display Panel holds nothing but one info line noting the clear; on no the state is
  what it was.
\<close>

theorem clear_contract:
  "(snd (clear_events s e) = [] \<longleftrightarrow> events s = [] \<and> log_display s = [])
   \<and> (events s = [] \<and> log_display s = [] \<longrightarrow> fst (clear_events s e) = s)
   \<and> (\<not> (events s = [] \<and> log_display s = []) \<longrightarrow>
        snd (clear_events s e) = [AskYesNo ''Clear'' ''Clear recorded events and display?''])
   \<and> (\<not> (events s = [] \<and> log_display s = []) \<and> askyesno e \<longrightarrow>
        events (fst (clear_events s e)) = []
        \<and> log_display (fst (clear_events s e)) =
            ''[INFO] '' @ utcnow e @ ''Z | Cleared recorded events.'' @ [NL])
   \<and> (\<not> (events s = [] \<and> log_display s = []) \<and> \<not> askyesno e \<longrightarrow>
        fst (clear_events s e) = s)"
proof (intro conjI impI)
  show "snd (clear_events s e) = [] \<longleftrightarrow> events s = [] \<and> log_display s = []"
    by (simp add: clear_events_def Let_def)
next
  assume "events s = [] \<and> log_display s = []"
  then show "fst (clear_events s e) = s"
    by (simp add: clear_events_def)
next
  assume "\<not> (events s = [] \<and> log_display s = [])"
  then show "snd (clear_events s e) = [AskYesNo ''Clear'' ''Clear recorded events and display?'']"
    by (simp add: clear_events_def Let_def)
next
  assume "\<not> (events s = [] \<and> log_display s = []) \<and> askyesno e"
  then show "events (fst (clear_events s e)) = []"
    by (simp add: clear_events_confirmed)
next
  assume "\<not> (events s = [] \<and> log_display s = []) \<and> askyesno e"
  then show "log_display (fst (clear_events s e)) =
      ''[INFO] '' @ utcnow e @ ''Z | Cleared recorded events.'' @ [NL]"
    by (simp add: clear_events_confirmed)
next
  assume "\<not> (events s = [] \<and> log_display s = []) \<and> \<not> askyesno e"
  then show "fst (clear_events s e) = s"
    by (auto simp: clear_events_def)
qed

theorem clear_contract_witness:
  "events (init Map.empty) = [] \<and> log_display (init Map.empty) = []
   \<and> clear_events (init Map.empty) example_env = (init Map.empty, [])
   \<and> \<not> (events before_save = [] \<and> log_display before_save = [])
   \<and> askyesno example_env
   \<and> snd (clear_events before_save example_env) =
       [AskYesNo ''Clear'' ''Clear recorded events and display?'']
   \<and> events (fst (clear_events before_save example_env)) = []
   \<and> log_display (fst (clear_events before_save example_env)) =
       ''[INFO] 2024-01-01T00:00:00Z | Cleared recorded events.'' @ [NL]
   \<and> \<not> askyesno (example_env\<lparr>askyesno := False\<rparr>)
   \<and> fst (clear_events before_save (example_env\<lparr>askyesno := False\<rparr>)) = before_save"
proof -
  have empty: "events (init Map.empty) = [] \<and> log_display (init Map.empty) = []"
    by (simp add: init_def)
  have filled: "\<not> (events before_save = [] \<and> log_display before_save = [])"
    by (simp add: before_save_eq)
  have yes: "askyesno example_env"
    and no: "\<not> askyesno (example_env\<lparr>askyesno := False\<rparr>)"
    and now: "utcnow example_env = ''2024-01-01T00:00:00''"
    by (simp_all add: example_env_def)
  note a = clear_contract [of "init Map.empty" example_env]
  note b = clear_contract [of before_save example_env]
  note c = clear_contract [of before_save "example_env\<lparr>askyesno := False\<rparr>"]
  from a empty have a1: "clear_events (init Map.empty) example_env = (init Map.empty, [])"
    by (metis prod.collapse)
  from b filled yes
  have b1: "snd (clear_events before_save example_env) =
      [AskYesNo ''Clear'' ''Clear recorded events and display?'']"
    and b2: "events (fst (clear_events before_save example_env)) = []"
    and b3: "log_display (fst (clear_events before_save example_env)) =
      ''[INFO] '' @ utcnow example_env @ ''Z | Cleared recorded events.'' @ [NL]"
    by blast+
  from b3 have b4: "log_display (fst (clear_events before_save example_env)) =
      ''[INFO] 2024-01-01T00:00:00Z | Cleared recorded events.'' @ [NL]"
    by (simp add: now)
  from c filled no
  have c1: "fst (clear_events before_save (example_env\<lparr>askyesno := False\<rparr>)) = before_save"
    by blast
  from empty a1 filled yes b1 b2 b4 no c1 show ?thesis by blast
qed

section \<open>Closing the window\<close>

text \<open>
  Claim C7. On a close request with a non-empty Event Log the user is asked
  \<open>There are unsaved recorded events. Exit without saving?\<close>; on no the handler returns
  the state it was given, so the window stays open and the Event Log is what it was. On
  yes, or when the Event Log is empty (then nothing is asked), the root window is
  destroyed, after which no callback changes the state any more.
\<close>

theorem close_contract:
  "(events s \<noteq> [] \<longrightarrow>
      snd (on_close s e) =
        [AskYesNo ''Exit'' ''There are unsaved recorded events. Exit without saving?''])
   \<and> (events s \<noteq> [] \<and> \<not> askyesno e \<longrightarrow> fst (on_close s e) = s)
   \<and> (events s = [] \<longrightarrow> snd (on_close s e) = [])
   \<and> (events s = [] \<or> askyesno e \<longrightarrow>
        fst (on_close s e) = s\<lparr>destroyed := True\<rparr>
        \<and> run (fst (on_close s e)) rest = fst (on_close s e))"
proof (intro conjI impI)
  assume "events s \<noteq> []"
  then show "snd (on_close s e) =
      [AskYesNo ''Exit'' ''There are unsaved recorded events. Exit without saving?'']"
    by (simp add: on_close_def)
next
  assume "events s \<noteq> [] \<and> \<not> askyesno e"
  then show "fst (on_close s e) = s"
    by (simp add: on_close_def)
next
  assume "events s = []"
  then show "snd (on_close s e) = []"
    by (simp add: on_close_def)
next
  assume h: "events s = [] \<or> askyesno e"
  then show gone: "fst (on_close s e) = s\<lparr>destroyed := True\<rparr>"
    by (auto simp: on_close_def)
  then have "destroyed (fst (on_close s e))"
    by simp
  then show "run (fst (on_close s e)) rest = fst (on_close s e)"
    by (rule run_destroyed)
qed

theorem close_contract_witness:
  "events before_save \<noteq> []
   \<and> \<not> askyesno (example_env\<lparr>askyesno := False\<rparr>)
   \<and> on_close before_save (example_env\<lparr>askyesno := False\<rparr>) =
       (before_save,
        [AskYesNo ''Exit'' ''There are unsaved recorded events. Exit without saving?''])
   \<and> \<not> destroyed before_save
   \<and> askyesno example_env
   \<and> destroyed (fst (on_close before_save example_env))
   \<and> run (fst (on_close before_save example_env)) scenario =
       fst (on_close before_save example_env)
   \<and> events (init Map.empty) = []
   \<and> on_close (init Map.empty) example_env = ((init Map.empty)\<lparr>destroyed := True\<rparr>, [])"
proof -
  have filled: "events before_save \<noteq> []"
    and alive: "\<not> destroyed before_save"
    by (simp_all add: before_save_eq)
  have empty: "events (init Map.empty) = []"
    by (simp add: init_def)
  have yes: "askyesno example_env"
    and no: "\<not> askyesno (example_env\<lparr>askyesno := False\<rparr>)"
    by (simp_all add: example_env_def)
  note a = close_contract [of before_save "example_env\<lparr>askyesno := False\<rparr>" "[]"]
  note b = close_contract [of before_save example_env scenario]
  note c = close_contract [of "init Map.empty" example_env "[]"]
  from a filled no
  have a1: "on_close before_save (example_env\<lparr>askyesno := False\<rparr>) =
       (before_save,
        [AskYesNo ''Exit'' ''There are unsaved recorded events. Exit without saving?''])"
    by (metis prod.collapse)
  from b yes have "fst (on_close before_save example_env) = before_save\<lparr>destroyed := True\<rparr>"
    and b2: "run (fst (on_close before_save example_env)) scenario =
       fst (on_close before_save example_env)"
    by blast+
  then have b1: "destroyed (fst (on_close before_save example_env))"
    by simp
  from c empty
  have c1: "on_close (init Map.empty) example_env = ((init Map.empty)\<lparr>destroyed := True\<rparr>, [])"
    by (metis prod.collapse)
  from filled no a1 alive yes b1 b2 empty c1 show ?thesis by blast
qed

section \<open>Start and Stop\<close>

text \<open>
  Claim C8. Start pressed twice in a row does what Start pressed once does: the second
  call returns the state the first one left (the recording flag, both buttons, the
  Display Panel and the Event Log with it) and shows nothing. In general Start is a no-op
  when \<open>recording\<close> is already true, and Stop is a no-op when it is already false.
\<close>

theorem start_idempotent:
  "start_recording (fst (start_recording s e1)) e2 = (fst (start_recording s e1), [])
   \<and> (recording s \<longrightarrow> start_recording s e1 = (s, []))
   \<and> (\<not> recording s \<longrightarrow> stop_recording s e1 = (s, []))
   \<and> stop_recording (fst (stop_recording s e1)) e2 = (fst (stop_recording s e1), [])"
proof (intro conjI impI)
  have "recording (fst (start_recording s e1))"
    by (simp add: start_recording_def append_message_eq)
  then show "start_recording (fst (start_recording s e1)) e2 = (fst (start_recording s e1), [])"
    by (simp add: start_recording_def)
next
  assume "recording s"
  then show "start_recording s e1 = (s, [])"
    by (simp add: start_recording_def)
next
  assume "\<not> recording s"
  then show "stop_recording s e1 = (s, [])"
    by (simp add: stop_recording_def)
next
  have "\<not> recording (fst (stop_recording s e1))"
    by (simp add: stop_recording_def append_message_eq)
  then show "stop_recording (fst (stop_recording s e1)) e2 = (fst (stop_recording s e1), [])"
    by (simp add: stop_recording_def)
qed

theorem start_idempotent_witness:
  "start_recording started (example_env\<lparr>utcnow := ''2024-01-01T00:00:09''\<rparr>) = (started, [])
   \<and> recording started
   \<and> start_recording started example_env = (started, [])
   \<and> \<not> recording (init Map.empty)
   \<and> stop_recording (init Map.empty) example_env = (init Map.empty, [])"
proof -
  have on: "recording started"
    by (simp add: started_eq)
  have off: "\<not> recording (init Map.empty)"
    by (simp add: init_def)
  note a = start_idempotent [of "init Map.empty" example_env
      "example_env\<lparr>utcnow := ''2024-01-01T00:00:09''\<rparr>"]
  note b = start_idempotent [of started example_env example_env]
  from a have a1:
    "start_recording started (example_env\<lparr>utcnow := ''2024-01-01T00:00:09''\<rparr>) = (started, [])"
    unfolding started_def by blast
  from b on have b1: "start_recording started example_env = (started, [])"
    by blast
  from a off have a2: "stop_recording (init Map.empty) example_env = (init Map.empty, [])"
    by blast
  from a1 on b1 off a2 show ?thesis by blast
qed

section \<open>The Event Log over a session\<close>

lemma start_recording_frame:
  "events (fst (start_recording s e)) = events s"
  "files (fst (start_recording s e)) = files s"
  by (simp_all add: start_recording_def append_message_eq)

lemma stop_recording_frame:
  "events (fst (stop_recording s e)) = events s"
  "files (fst (stop_recording s e)) = files s"
  by (simp_all add: stop_recording_def append_message_eq)

lemma open_log_file_same: "fst (open_log_file s e) = s"
  by (simp add: open_log_file_def Let_def split: option.split)

lemma on_close_frame:
  "events (fst (on_close s e)) = events s"
  "files (fst (on_close s e)) = files s"
  by (simp_all add: on_close_def)

lemma on_key_press_files: "files (fst (on_key_press s e event)) = files s"
  by (cases "recording s") (simp_all add: on_key_press_closed on_key_press_open)

lemma on_key_press_events:
  "events (fst (on_key_press s e event)) =
     (if recording s then events s @ [record_of event e] else events s)"
  by (simp add: on_key_press_closed on_key_press_open record_of_def)

lemma clear_events_events:
  "events (fst (clear_events s e)) =
     (if askyesno e then [] else events s)"
  by (auto simp: clear_events_def Let_def delete_all_def append_message_eq)

lemma clear_events_files: "files (fst (clear_events s e)) = files s"
  by (auto simp: clear_events_def Let_def delete_all_def append_message_eq)

lemma save_log_files:
  "files (fst (save_log s e)) = files s
   \<or> (\<exists>n. files (fst (save_log s e)) =
         file_append (files s) (asksaveasfilename e)
           (take n (save_text (utcnow e) (events s))))"
proof (cases "events s \<noteq> [] \<and> asksaveasfilename e \<noteq> []")
  case False
  then show ?thesis
    by (auto simp: save_log_def Let_def)
next
  case True
  show ?thesis
  proof (cases "write_result e")
    case Written
    with True have "files (fst (save_log s e)) =
        file_append (files s) (asksaveasfilename e)
          (take (length (save_text (utcnow e) (events s))) (save_text (utcnow e) (events s)))"
      by (simp add: save_log_written_files)
    then show ?thesis by blast
  next
    case (Open_failed err)
    with True show ?thesis
      by (simp add: save_log_def Let_def)
  next
    case (Write_failed err n)
    with True have "files (fst (save_log s e)) =
        file_append (files s) (asksaveasfilename e) (take n (save_text (utcnow e) (events s)))"
      by (simp add: save_log_def Let_def)
    then show ?thesis by blast
  qed
qed

lemma dispatch_events:
  "events (fst (dispatch s ae)) = events s
   \<or> (confirmed_clear ae \<and> events (fst (dispatch s ae)) = [])
   \<or> (\<exists>event. fst ae = Key_press event \<and> recording s
         \<and> events (fst (dispatch s ae)) = events s @ [record_of event (snd ae)])"
proof (cases "destroyed s")
  case True
  then show ?thesis by (simp add: dispatch_def)
next
  case False
  then have d: "dispatch s ae = handle s (fst ae) (snd ae)"
    by (simp add: dispatch_def)
  show ?thesis
  proof (cases "fst ae")
    case Press_start
    then show ?thesis by (simp add: d start_recording_frame)
  next
    case Press_stop
    then show ?thesis by (simp add: d stop_recording_frame)
  next
    case (Key_press event)
    then show ?thesis by (simp add: d on_key_press_events)
  next
    case Press_save
    then show ?thesis by (simp add: d save_log_events)
  next
    case Press_open
    then show ?thesis by (simp add: d open_log_file_same)
  next
    case Press_clear
    then show ?thesis by (simp add: d clear_events_events confirmed_clear_def)
  next
    case Close_window
    then show ?thesis by (simp add: d on_close_frame)
  qed
qed

lemma dispatch_prefix:
  "\<not> confirmed_clear ae \<Longrightarrow> prefix (events s) (events (fst (dispatch s ae)))"
  using dispatch_events [of s ae] by auto

lemma run_prefix:
  "\<forall>ae \<in> set as. \<not> confirmed_clear ae \<Longrightarrow> prefix (events s) (events (run s as))"
proof (induction as arbitrary: s)
  case Nil
  then show ?case by simp
next
  case (Cons ae as)
  have "prefix (events s) (events (fst (dispatch s ae)))"
    using Cons.prems by (simp add: dispatch_prefix)
  moreover have "prefix (events (fst (dispatch s ae))) (events (run (fst (dispatch s ae)) as))"
    using Cons.prems by (intro Cons.IH) simp
  ultimately show ?case
    by (auto intro: prefix_order.trans)
qed

lemma dispatch_clear:
  "confirmed_clear ae \<Longrightarrow> \<not> destroyed s \<Longrightarrow> events (fst (dispatch s ae)) = []"
  by (cases ae) (simp add: confirmed_clear_def dispatch_def clear_events_events)

lemma dispatch_records:
  "set (events (fst (dispatch s ae))) \<subseteq>
     set (events s) \<union> {record_of event e | event e. ae = (Key_press event, e)}"
proof -
  have "ae = (fst ae, snd ae)" by simp
  then show ?thesis
    using dispatch_events [of s ae] by (auto simp del: prod.collapse) metis+
qed

lemma run_records:
  "set (events (run s as)) \<subseteq>
     set (events s) \<union> {record_of event e | event e. (Key_press event, e) \<in> set as}"
proof (induction as arbitrary: s)
  case Nil
  then show ?case by simp
next
  case (Cons ae as)
  have "set (events (run s (ae # as))) \<subseteq>
      set (events (fst (dispatch s ae)))
        \<union> {record_of event e | event e. (Key_press event, e) \<in> set as}"
    using Cons.IH [of "fst (dispatch s ae)"] by simp
  also have "\<dots> \<subseteq> (set (events s) \<union> {record_of event e | event e. ae = (Key_press event, e)})
        \<union> {record_of event e | event e. (Key_press event, e) \<in> set as}"
    using dispatch_records [of s ae] by blast
  also have "\<dots> \<subseteq> set (events s)
        \<union> {record_of event e | event e. (Key_press event, e) \<in> set (ae # as)}"
    by auto
  finally show ?case .
qed

lemma dispatch_files:
  "files (fst (dispatch s ae)) = files s
   \<or> (fst ae = Press_save
       \<and> (\<exists>n. files (fst (dispatch s ae)) =
             file_append (files s) (asksaveasfilename (snd ae))
               (take n (save_text (utcnow (snd ae)) (events s)))))"
proof (cases "destroyed s")
  case True
  then show ?thesis by (simp add: dispatch_def)
next
  case False
  then have d: "dispatch s ae = handle s (fst ae) (snd ae)"
    by (simp add: dispatch_def)
  show ?thesis
  proof (cases "fst ae")
    case Press_save
    then show ?thesis
      using save_log_files [of s "snd ae"] by (simp add: d)
  qed (simp_all add: d start_recording_frame stop_recording_frame on_key_press_files
      open_log_file_same clear_events_files on_close_frame)
qed

lemma append_message_frame:
  "events (append_message s now msg) = events s"
  "files (append_message s now msg) = files s"
  "log_display (append_message s now msg) =
     log_display s @ ''[INFO] '' @ now @ ''Z | '' @ msg @ [NL]"
  by (simp_all add: append_message_eq)

lemma scenario_no_clear: "\<forall>ae \<in> set scenario. \<not> confirmed_clear ae"
  by (simp add: scenario_def confirmed_clear_def)

lemma run_append: "run s (as @ bs) = run (run s as) bs"
  by (induction as arbitrary: s) simp_all

lemma scenario_events:
  "events (run (init existing_files) scenario) =
     [(''2024-01-01T00:00:02Z'', ''a'', ''a''),
      (''2024-01-01T00:00:03Z'', ''Return'', ''<non-printable>'')]"
proof -
  have "scenario = butlast scenario @ [last scenario]"
    by (simp add: scenario_def)
  then have "run (init existing_files) scenario =
      run (run (init existing_files) (butlast scenario)) [last scenario]"
    using run_append [of "init existing_files" "butlast scenario" "[last scenario]"] by simp
  then have "events (run (init existing_files) scenario) =
      events (fst (dispatch before_save (last scenario)))"
    by (simp add: before_save_def)
  also have "last scenario =
      (Press_save,
       example_env\<lparr>utcnow := ''2024-01-01T00:00:05'', utcnow_later := ''2024-01-01T00:00:06''\<rparr>)"
    by (simp add: scenario_def)
  finally show ?thesis
    by (simp add: dispatch_def save_log_events before_save_eq)
qed

text \<open>The notices: what Start, Stop, Save and Clear put on the Display Panel.\<close>

lemma start_notice:
  "\<not> destroyed s \<Longrightarrow> \<not> recording s \<Longrightarrow>
   log_display (fst (dispatch s (Press_start, e))) =
     log_display s @ ''[INFO] '' @ utcnow e
       @ ''Z | Recording started. Click inside input area and type...'' @ [NL]"
  by (simp add: dispatch_def start_recording_def append_message_eq)

lemma stop_notice:
  "\<not> destroyed s \<Longrightarrow> recording s \<Longrightarrow>
   log_display (fst (dispatch s (Press_stop, e))) =
     log_display s @ ''[INFO] '' @ utcnow e @ ''Z | Recording stopped.'' @ [NL]"
  by (simp add: dispatch_def stop_recording_def append_message_eq)

lemma save_notice:
  "\<not> destroyed s \<Longrightarrow> events s \<noteq> [] \<Longrightarrow> asksaveasfilename e \<noteq> [] \<Longrightarrow>
   write_result e = Written \<Longrightarrow>
   log_display (fst (dispatch s (Press_save, e))) =
     log_display s @ ''[INFO] '' @ utcnow_later e @ ''Z | Saved ''
       @ str_nat (length (events s)) @ '' events to '' @ basename (asksaveasfilename e) @ [NL]"
  by (simp add: dispatch_def save_log_def Let_def append_message_eq)

lemma clear_notice:
  "\<not> destroyed s \<Longrightarrow> \<not> (events s = [] \<and> log_display s = []) \<Longrightarrow> askyesno e \<Longrightarrow>
   log_display (fst (dispatch s (Press_clear, e))) =
     ''[INFO] '' @ utcnow e @ ''Z | Cleared recorded events.'' @ [NL]"
  by (simp add: dispatch_def clear_events_confirmed)

lemma notice_keeps_log:
  "events (fst (dispatch s (Press_start, e))) = events s"
  "events (fst (dispatch s (Press_stop, e))) = events s"
  "events (fst (dispatch s (Press_save, e))) = events s"
  by (simp_all add: dispatch_def start_recording_frame stop_recording_frame save_log_events)

lemma digit_2: "digit 2 = CHR ''2''"
  by code_simp

lemma basename_out: "basename ''out.txt'' = ''out.txt''"
  by (simp add: basename_def)

text \<open>
  Claim C9. A step of the session that is not a user-confirmed Clear keeps the Event Log
  as a prefix of the new one, so over any sequence of such steps its length never
  decreases; a confirmed Clear leaves it empty. The only step that adds to the Event Log
  is a key event arriving while recording, which adds its one record; hence every record
  a session ever holds comes from a key event. An informational message goes to the
  Display Panel and leaves the Event Log and the files alone, and the only text a step
  ever writes to a file is (a prefix of) the block that Save builds from the clock and the
  Event Log. Start, Stop and a completed Save each append their notice as one \<open>[INFO]\<close>
  line to the Display Panel and leave the Event Log as it was; a confirmed Clear leaves its
  notice as the only line of the Display Panel and the Event Log empty.
\<close>

theorem event_log_append_only:
  "(\<not> confirmed_clear ae \<longrightarrow>
      prefix (events s) (events (fst (dispatch s ae)))
      \<and> length (events s) \<le> length (events (fst (dispatch s ae))))
   \<and> ((\<forall>x \<in> set as. \<not> confirmed_clear x) \<longrightarrow>
        prefix (events s) (events (run s as))
        \<and> length (events s) \<le> length (events (run s as)))
   \<and> (confirmed_clear ae \<and> \<not> destroyed s \<longrightarrow> events (fst (dispatch s ae)) = [])
   \<and> (events (fst (dispatch s ae)) \<noteq> events s \<and> \<not> confirmed_clear ae \<longrightarrow>
        (\<exists>event. fst ae = Key_press event \<and> recording s
           \<and> events (fst (dispatch s ae)) = events s @ [record_of event (snd ae)]))
   \<and> set (events (run s as)) \<subseteq>
        set (events s) \<union> {record_of event e | event e. (Key_press event, e) \<in> set as}
   \<and> events (append_message s now msg) = events s
   \<and> files (append_message s now msg) = files s
   \<and> log_display (append_message s now msg) =
        log_display s @ ''[INFO] '' @ now @ ''Z | '' @ msg @ [NL]
   \<and> (files (fst (dispatch s ae)) = files s
        \<or> (fst ae = Press_save
            \<and> (\<exists>n. files (fst (dispatch s ae)) =
                  file_append (files s) (asksaveasfilename (snd ae))
                    (take n (save_text (utcnow (snd ae)) (events s))))))
   \<and> events (fst (dispatch s (Press_start, e))) = events s
   \<and> events (fst (dispatch s (Press_stop, e))) = events s
   \<and> events (fst (dispatch s (Press_save, e))) = events s
   \<and> (\<not> destroyed s \<and> \<not> recording s \<longrightarrow>
        log_display (fst (dispatch s (Press_start, e))) =
          log_display s @ ''[INFO] '' @ utcnow e
            @ ''Z | Recording started. Click inside input area and type...'' @ [NL])
   \<and> (\<not> destroyed s \<and> recording s \<longrightarrow>
        log_display (fst (dispatch s (Press_stop, e))) =
          log_display s @ ''[INFO] '' @ utcnow e @ ''Z | Recording stopped.'' @ [NL])
   \<and> (\<not> destroyed s \<and> events s \<noteq> [] \<and> asksaveasfilename e \<noteq> []
        \<and> write_result e = Written \<longrightarrow>
        log_display (fst (dispatch s (Press_save, e))) =
          log_display s @ ''[INFO] '' @ utcnow_later e @ ''Z | Saved ''
            @ str_nat (length (events s)) @ '' events to ''
            @ basename (asksaveasfilename e) @ [NL])
   \<and> (\<not> destroyed s \<and> \<not> (events s = [] \<and> log_display s = []) \<and> askyesno e \<longrightarrow>
        log_display (fst (dispatch s (Press_clear, e))) =
          ''[INFO] '' @ utcnow e @ ''Z | Cleared recorded events.'' @ [NL]
        \<and> events (fst (dispatch s (Press_clear, e))) = [])"
proof (intro conjI impI)
  assume "\<not> confirmed_clear ae"
  then show p: "prefix (events s) (events (fst (dispatch s ae)))"
    by (rule dispatch_prefix)
  then show "length (events s) \<le> length (events (fst (dispatch s ae)))"
    by (rule prefix_length_le)
next
  assume "\<forall>x \<in> set as. \<not> confirmed_clear x"
  then show p: "prefix (events s) (events (run s as))"
    by (rule run_prefix)
  then show "length (events s) \<le> length (events (run s as))"
    by (rule prefix_length_le)
next
  assume "confirmed_clear ae \<and> \<not> destroyed s"
  then show "events (fst (dispatch s ae)) = []"
    by (simp add: dispatch_clear)
next
  assume "events (fst (dispatch s ae)) \<noteq> events s \<and> \<not> confirmed_clear ae"
  then show "\<exists>event. fst ae = Key_press event \<and> recording s
      \<and> events (fst (dispatch s ae)) = events s @ [record_of event (snd ae)]"
    using dispatch_events [of s ae] by blast
next
  show "set (events (run s as)) \<subseteq>
      set (events s) \<union> {record_of event e | event e. (Key_press event, e) \<in> set as}"
    by (rule run_records)
next
  show "events (append_message s now msg) = events s"
    and "files (append_message s now msg) = files s"
    and "log_display (append_message s now msg) =
      log_display s @ ''[INFO] '' @ now @ ''Z | '' @ msg @ [NL]"
    by (rule append_message_frame)+
next
  show "files (fst (dispatch s ae)) = files s
      \<or> (fst ae = Press_save
          \<and> (\<exists>n. files (fst (dispatch s ae)) =
                file_append (files s) (asksaveasfilename (snd ae))
                  (take n (save_text (utcnow (snd ae)) (events s)))))"
    by (rule dispatch_files)
next
  show "events (fst (dispatch s (Press_start, e))) = events s"
    and "events (fst (dispatch s (Press_stop, e))) = events s"
    and "events (fst (dispatch s (Press_save, e))) = events s"
    by (rule notice_keeps_log)+
next
  assume "\<not> destroyed s \<and> \<not> recording s"
  then show "log_display (fst (dispatch s (Press_start, e))) =
      log_display s @ ''[INFO] '' @ utcnow e
        @ ''Z | Recording started. Click inside input area and type...'' @ [NL]"
    by (intro start_notice) simp_all
next
  assume "\<not> destroyed s \<and> recording s"
  then show "log_display (fst (dispatch s (Press_stop, e))) =
      log_display s @ ''[INFO] '' @ utcnow e @ ''Z | Recording stopped.'' @ [NL]"
    by (intro stop_notice) simp_all
next
  assume "\<not> destroyed s \<and> events s \<noteq> [] \<and> asksaveasfilename e \<noteq> []
      \<and> write_result e = Written"
  then show "log_display (fst (dispatch s (Press_save, e))) =
      log_display s @ ''[INFO] '' @ utcnow_later e @ ''Z | Saved ''
        @ str_nat (length (events s)) @ '' events to ''
        @ basename (asksaveasfilename e) @ [NL]"
    by (intro save_notice) simp_all
next
  assume h: "\<not> destroyed s \<and> \<not> (events s = [] \<and> log_display s = []) \<and> askyesno e"
  then show "log_display (fst (dispatch s (Press_clear, e))) =
      ''[INFO] '' @ utcnow e @ ''Z | Cleared recorded events.'' @ [NL]"
    by (intro clear_notice) simp_all
  from h have "confirmed_clear (Press_clear, e)"
    by (simp add: confirmed_clear_def)
  with h show "events (fst (dispatch s (Press_clear, e))) = []"
    by (simp add: dispatch_clear)
qed

theorem event_log_append_only_witness:
  "\<not> list_ex confirmed_clear scenario
   \<and> length (events (init existing_files)) \<le> length (events (run (init existing_files) scenario))
   \<and> events (run (init existing_files) scenario) =
       [(''2024-01-01T00:00:02Z'', ''a'', ''a''),
        (''2024-01-01T00:00:03Z'', ''Return'', ''<non-printable>'')]
   \<and> confirmed_clear (Press_clear, example_env) \<and> \<not> destroyed before_save
   \<and> events (fst (dispatch before_save (Press_clear, example_env))) = []
   \<and> \<not> confirmed_clear (Press_stop, example_env)
   \<and> prefix (events before_save) (events (fst (dispatch before_save (Press_stop, example_env))))
   \<and> \<not> destroyed (init existing_files) \<and> \<not> recording (init existing_files)
   \<and> log_display (fst (dispatch (init existing_files) (Press_start, example_env))) =
       ''[INFO] 2024-01-01T00:00:00Z | Recording started. Click inside input area and type...''
         @ [NL]
   \<and> \<not> destroyed started \<and> recording started
   \<and> log_display (fst (dispatch started (Press_stop, example_env))) =
       log_display started @ ''[INFO] 2024-01-01T00:00:00Z | Recording stopped.'' @ [NL]
   \<and> events before_save \<noteq> [] \<and> asksaveasfilename example_env \<noteq> []
   \<and> write_result example_env = Written
   \<and> log_display (fst (dispatch before_save (Press_save, example_env))) =
       log_display before_save
         @ ''[INFO] 2024-01-01T00:00:01Z | Saved 2 events to out.txt'' @ [NL]
   \<and> events (fst (dispatch before_save (Press_save, example_env))) = events before_save
   \<and> askyesno example_env
   \<and> log_display (fst (dispatch before_save (Press_clear, example_env))) =
       ''[INFO] 2024-01-01T00:00:00Z | Cleared recorded events.'' @ [NL]"
proof -
  have alive: "\<not> destroyed before_save"
    and filled: "events before_save \<noteq> []"
    and two: "length (events before_save) = 2"
    by (simp_all add: before_save_eq)
  have fresh: "\<not> destroyed (init existing_files)" "\<not> recording (init existing_files)"
    "log_display (init existing_files) = []"
    by (simp_all add: init_def)
  have on: "\<not> destroyed started" "recording started"
    by (simp_all add: started_eq)
  have clr: "confirmed_clear (Press_clear, example_env)"
    and stp: "\<not> confirmed_clear (Press_stop, example_env)"
    by (simp_all add: confirmed_clear_def example_env_def)
  have answers: "asksaveasfilename example_env = ''out.txt''" "write_result example_env = Written"
    "askyesno example_env" "utcnow example_env = ''2024-01-01T00:00:00''"
    "utcnow_later example_env = ''2024-01-01T00:00:01''"
    by (simp_all add: example_env_def)
  have path: "asksaveasfilename example_env \<noteq> []"
    by (simp add: answers)
  have none: "\<not> list_ex confirmed_clear scenario"
    using scenario_no_clear by (simp add: list_ex_iff)
  note a = event_log_append_only
    [of "(Press_clear, example_env)" "init existing_files" scenario _ _ example_env]
  note b = event_log_append_only [of "(Press_clear, example_env)" before_save "[]" _ _ example_env]
  note c = event_log_append_only [of "(Press_stop, example_env)" before_save "[]" _ _ example_env]
  note d = event_log_append_only [of "(Press_stop, example_env)" started "[]" _ _ example_env]
  from a scenario_no_clear
  have a1: "length (events (init existing_files))
      \<le> length (events (run (init existing_files) scenario))"
    by blast
  from a fresh
  have "log_display (fst (dispatch (init existing_files) (Press_start, example_env))) =
      log_display (init existing_files) @ ''[INFO] '' @ utcnow example_env
        @ ''Z | Recording started. Click inside input area and type...'' @ [NL]"
    by blast
  then have a2: "log_display (fst (dispatch (init existing_files) (Press_start, example_env))) =
       ''[INFO] 2024-01-01T00:00:00Z | Recording started. Click inside input area and type...''
         @ [NL]"
    by (simp add: fresh answers)
  from b clr alive
  have b1: "events (fst (dispatch before_save (Press_clear, example_env))) = []"
    by blast
  from b alive filled path answers
  have "log_display (fst (dispatch before_save (Press_save, example_env))) =
      log_display before_save @ ''[INFO] '' @ utcnow_later example_env @ ''Z | Saved ''
        @ str_nat (length (events before_save)) @ '' events to ''
        @ basename (asksaveasfilename example_env) @ [NL]"
    by blast
  then have b2: "log_display (fst (dispatch before_save (Press_save, example_env))) =
       log_display before_save
         @ ''[INFO] 2024-01-01T00:00:01Z | Saved 2 events to out.txt'' @ [NL]"
    by (simp add: answers two digit_2 basename_out)
  from b have b3: "events (fst (dispatch before_save (Press_save, example_env))) =
      events before_save"
    by blast
  from b alive filled answers
  have "log_display (fst (dispatch before_save (Press_clear, example_env))) =
      ''[INFO] '' @ utcnow example_env @ ''Z | Cleared recorded events.'' @ [NL]"
    by blast
  then have b4: "log_display (fst (dispatch before_save (Press_clear, example_env))) =
       ''[INFO] 2024-01-01T00:00:00Z | Cleared recorded events.'' @ [NL]"
    by (simp add: answers)
  from c stp
  have c1: "prefix (events before_save)
      (events (fst (dispatch before_save (Press_stop, example_env))))"
    by blast
  from d on
  have "log_display (fst (dispatch started (Press_stop, example_env))) =
      log_display started @ ''[INFO] '' @ utcnow example_env @ ''Z | Recording stopped.'' @ [NL]"
    by blast
  then have d1: "log_display (fst (dispatch started (Press_stop, example_env))) =
       log_display started @ ''[INFO] 2024-01-01T00:00:00Z | Recording stopped.'' @ [NL]"
    by (simp add: answers)
  from none a1 scenario_events clr alive b1 stp c1 fresh(1,2) a2 on d1 filled path answers(2)
    b2 b3 answers(3) b4
  show ?thesis by blast
qed

section \<open>The recording flag and what the window shows\<close>

lemma init_gate_consistent: "gate_consistent (init fs)"
  by (simp add: gate_consistent_def init_def)

lemma start_recording_gate:
  "gate_consistent s \<Longrightarrow> gate_consistent (fst (start_recording s e))"
  by (cases "recording s") (auto simp: gate_consistent_def start_recording_def append_message_eq)

lemma stop_recording_gate:
  "gate_consistent s \<Longrightarrow> gate_consistent (fst (stop_recording s e))"
  by (cases "recording s") (auto simp: gate_consistent_def stop_recording_def append_message_eq)

lemma save_log_gate_fields:
  "start_btn (fst (save_log s e)) = start_btn s"
  "stop_btn (fst (save_log s e)) = stop_btn s"
  "status_label (fst (save_log s e)) = status_label s"
  by (simp_all add: save_log_def Let_def append_message_eq split: write_outcome.split)

lemma clear_events_gate_fields:
  "recording (fst (clear_events s e)) = recording s"
  "start_btn (fst (clear_events s e)) = start_btn s"
  "stop_btn (fst (clear_events s e)) = stop_btn s"
  "status_label (fst (clear_events s e)) = status_label s"
  by (auto simp: clear_events_def Let_def delete_all_def append_message_eq)

lemma on_key_press_gate_fields:
  "recording (fst (on_key_press s e event)) = recording s"
  "start_btn (fst (on_key_press s e event)) = start_btn s"
  "stop_btn (fst (on_key_press s e event)) = stop_btn s"
  "status_label (fst (on_key_press s e event)) = status_label s"
  by (cases "recording s"; simp add: on_key_press_closed on_key_press_open)+

lemma on_close_gate_fields:
  "recording (fst (on_close s e)) = recording s"
  "start_btn (fst (on_close s e)) = start_btn s"
  "stop_btn (fst (on_close s e)) = stop_btn s"
  "status_label (fst (on_close s e)) = status_label s"
  by (simp_all add: on_close_def)

lemma handle_gate_fields:
  assumes "a \<noteq> Press_start" and "a \<noteq> Press_stop"
  shows "recording (fst (handle s a e)) = recording s
    \<and> start_btn (fst (handle s a e)) = start_btn s
    \<and> stop_btn (fst (handle s a e)) = stop_btn s
    \<and> status_label (fst (handle s a e)) = status_label s"
proof (cases a)
  case (Key_press event)
  then show ?thesis by (simp add: on_key_press_gate_fields)
next
  case Press_save
  then show ?thesis by (simp add: save_log_gate_fields save_log_recording)
next
  case Press_open
  then show ?thesis by (simp add: open_log_file_same)
next
  case Press_clear
  then show ?thesis by (simp add: clear_events_gate_fields)
next
  case Close_window
  then show ?thesis by (simp add: on_close_gate_fields)
qed (use assms in simp_all)

lemma dispatch_gate_fields:
  assumes "fst ae \<noteq> Press_start" and "fst ae \<noteq> Press_stop"
  shows "recording (fst (dispatch s ae)) = recording s
    \<and> start_btn (fst (dispatch s ae)) = start_btn s
    \<and> stop_btn (fst (dispatch s ae)) = stop_btn s
    \<and> status_label (fst (dispatch s ae)) = status_label s"
  using handle_gate_fields [OF assms, of s "snd ae"] by (simp add: dispatch_def)

lemma dispatch_gate_consistent:
  assumes "gate_consistent s"
  shows "gate_consistent (fst (dispatch s ae))"
proof (cases "fst ae = Press_start \<or> fst ae = Press_stop")
  case True
  with assms show ?thesis
    by (auto simp: dispatch_def start_recording_gate stop_recording_gate)
next
  case False
  then have "recording (fst (dispatch s ae)) = recording s
      \<and> start_btn (fst (dispatch s ae)) = start_btn s
      \<and> stop_btn (fst (dispatch s ae)) = stop_btn s
      \<and> status_label (fst (dispatch s ae)) = status_label s"
    by (intro dispatch_gate_fields) simp_all
  with assms show ?thesis
    unfolding gate_consistent_def by metis
qed

lemma run_gate_consistent: "gate_consistent s \<Longrightarrow> gate_consistent (run s as)"
  by (induction as arbitrary: s) (simp_all add: dispatch_gate_consistent)

text \<open>
  Claim C10. In every state a session can reach, \<open>recording\<close> is true exactly when Start
  is disabled, Stop is enabled and the status reads \<open>Recording: Yes\<close>, and false exactly
  when Start is enabled, Stop is disabled and the status reads \<open>Recording: No\<close>. This
  holds for the state the constructor builds and every step preserves it; a step other
  than Start and Stop leaves the flag, both buttons and the status label as they were.
\<close>

theorem gate_invariant:
  "gate_consistent (init fs)
   \<and> (gate_consistent s \<longrightarrow> gate_consistent (fst (dispatch s ae)))
   \<and> gate_consistent (run (init fs) as)
   \<and> (fst ae \<noteq> Press_start \<and> fst ae \<noteq> Press_stop \<longrightarrow>
        recording (fst (dispatch s ae)) = recording s
        \<and> start_btn (fst (dispatch s ae)) = start_btn s
        \<and> stop_btn (fst (dispatch s ae)) = stop_btn s
        \<and> status_label (fst (dispatch s ae)) = status_label s)"
proof (intro conjI impI)
  show "gate_consistent (init fs)"
    by (rule init_gate_consistent)
  then show "gate_consistent (run (init fs) as)"
    by (rule run_gate_consistent)
next
  assume "gate_consistent s"
  then show "gate_consistent (fst (dispatch s ae))"
    by (rule dispatch_gate_consistent)
next
  assume h: "fst ae \<noteq> Press_start \<and> fst ae \<noteq> Press_stop"
  then have "recording (fst (dispatch s ae)) = recording s
      \<and> start_btn (fst (dispatch s ae)) = start_btn s
      \<and> stop_btn (fst (dispatch s ae)) = stop_btn s
      \<and> status_label (fst (dispatch s ae)) = status_label s"
    by (intro dispatch_gate_fields) simp_all
  then show "recording (fst (dispatch s ae)) = recording s"
    and "start_btn (fst (dispatch s ae)) = start_btn s"
    and "stop_btn (fst (dispatch s ae)) = stop_btn s"
    and "status_label (fst (dispatch s ae)) = status_label s"
    by simp_all
qed

theorem gate_invariant_witness:
  "gate_consistent started
   \<and> recording started \<and> start_btn started = Disabled \<and> stop_btn started = Normal
   \<and> status_label started = (''Recording: Yes'', ''green'')
   \<and> gate_consistent (fst (dispatch started (Press_stop, example_env)))
   \<and> gate_consistent (run (init existing_files) scenario)
   \<and> fst (Key_press key_a, example_env) \<noteq> Press_start
   \<and> fst (Key_press key_a, example_env) \<noteq> Press_stop
   \<and> recording (fst (dispatch started (Key_press key_a, example_env)))
   \<and> start_btn (fst (dispatch started (Key_press key_a, example_env))) = Disabled
   \<and> stop_btn (fst (dispatch started (Key_press key_a, example_env))) = Normal
   \<and> status_label (fst (dispatch started (Key_press key_a, example_env))) =
       (''Recording: Yes'', ''green'')"
proof -
  have st: "started = fst (dispatch (init Map.empty) (Press_start, example_env))"
    by (simp add: started_def dispatch_def init_def)
  have fields: "recording started" "start_btn started = Disabled" "stop_btn started = Normal"
    "status_label started = (''Recording: Yes'', ''green'')"
    by (simp_all add: started_eq)
  have key: "fst (Key_press key_a, example_env) \<noteq> Press_start"
    "fst (Key_press key_a, example_env) \<noteq> Press_stop"
    by simp_all
  note a = gate_invariant [of Map.empty "init Map.empty" "(Press_start, example_env)" "[]"]
  from a have g: "gate_consistent started"
    unfolding st by blast
  note b = gate_invariant [of existing_files started "(Press_stop, example_env)" scenario]
  from b g have b1: "gate_consistent (fst (dispatch started (Press_stop, example_env)))"
    and b2: "gate_consistent (run (init existing_files) scenario)"
    by blast+
  note c = gate_invariant [of Map.empty started "(Key_press key_a, example_env)" "[]"]
  from c key fields
  have c1: "recording (fst (dispatch started (Key_press key_a, example_env)))"
    and c2: "start_btn (fst (dispatch started (Key_press key_a, example_env))) = Disabled"
    and c3: "stop_btn (fst (dispatch started (Key_press key_a, example_env))) = Normal"
    and c4: "status_label (fst (dispatch started (Key_press key_a, example_env))) =
       (''Recording: Yes'', ''green'')"
    by simp_all
  from g fields b1 b2 key c1 c2 c3 c4 show ?thesis by blast
qed

end
